theory Spec2Isabelle
  imports Main "HOL-Library.AList"
begin

section \<open>Room lifecycle manager of the Pong Force matchmaking server\<close>

text \<open>
  The development embeds the class \<open>RoomManager\<close> of \<open>matchmaking_server.py\<close>: the
  module-level dictionary \<open>active_rooms\<close>, the operations \<open>create_room\<close>,
  \<open>join_room\<close>, \<open>update_room_status\<close>, \<open>close_room\<close>, \<open>get_room_info\<close>,
  \<open>list_rooms\<close>, \<open>cleanup_old_rooms\<close> and the snapshot writer \<open>save_rooms\<close>.

  Modelling decisions.
  \<^item> A Python dictionary keeps its keys distinct and in insertion order, so
    \<open>active_rooms\<close> is an association list; \<open>d[k] = v\<close> is \<open>AList.update\<close>
    (in place for a present key, appended for a new one), \<open>del d[k]\<close> is
    \<open>AList.delete\<close>, \<open>k in d\<close> is a lookup with \<open>map_of\<close>.
  \<^item> \<open>datetime.now()\<close> is an input of every operation that reads the clock. A
    timestamp is the number of microseconds since a fixed origin, the resolution of
    \<open>datetime\<close>; \<open>isoformat\<close> followed by \<open>fromisoformat\<close> gives the same
    instant back.
  \<^item> \<open>uuid.uuid4().hex[:4]\<close> is an input of \<open>join_room\<close> (the parameter \<open>tok\<close>).
  \<^item> \<open>save_rooms\<close> dumps the whole dictionary to the rooms file. The state keeps
    the sequence of dumps, oldest first, so that the number, the order and the content
    of the writes can be stated.
  \<^item> The result dictionaries \<open>{"success": False, "error": msg}\<close> are the
    constructors of \<open>error\<close>, one for each message of the source.
\<close>

subsection \<open>Configuration\<close>

definition ROOM_TIMEOUT :: int where
  "ROOM_TIMEOUT = 600"

definition MAX_ROOMS :: nat where
  "MAX_ROOMS = 1000"

definition MAX_PLAYERS_PER_ROOM :: int where
  "MAX_PLAYERS_PER_ROOM = 2"

subsection \<open>Data model\<close>

text \<open>The JSON values a client can put into a host description.\<close>

datatype jvalue = JNone | JBool bool | JInt int | JStr string

type_synonym timestamp = int

record host =
  name :: string
  ip :: jvalue
  port :: jvalue
  public_ip :: jvalue

record room =
  host :: host
  players :: "string list"
  status :: string
  created_at :: timestamp
  last_activity :: timestamp
  max_players :: int

type_synonym registry = "(string \<times> room) list"

record state =
  active_rooms :: registry
  rooms_file :: "registry list"

text \<open>
  The error messages of the source, in the order of their first occurrence:
  \<open>"Server at maximum capacity"\<close>, \<open>"Room code already exists"\<close>,
  \<open>"Room not found"\<close>, \<open>"Room is not accepting players"\<close>, \<open>"Room is full"\<close>.
\<close>

datatype error =
  CapacityExceeded | CodeConflict | RoomNotFound | RoomNotAcceptingPlayers | RoomFull

text \<open>The success dictionary of \<open>join_room\<close>.\<close>

record joined =
  host_ip :: jvalue
  host_port :: jvalue
  joined_public_ip :: jvalue
  joined_players :: "string list"
  joined_status :: string
  player_name :: string
  name_changed :: bool

definition empty_state :: state where
  "empty_state = \<lparr>active_rooms = [], rooms_file = []\<rparr>"

subsection \<open>Persistence\<close>

text \<open>\<open>save_rooms\<close>: one dump of the current dictionary.\<close>

definition save_rooms :: "state \<Rightarrow> state" where
  "save_rooms st = st\<lparr>rooms_file := rooms_file st @ [active_rooms st]\<rparr>"

subsection \<open>Creating a room\<close>

text \<open>\<open>dict.get(key)\<close> and \<open>dict.get(key, default)\<close> on the host description.\<close>

definition dict_get :: "(string \<rightharpoonup> jvalue) \<Rightarrow> string \<Rightarrow> jvalue \<Rightarrow> jvalue" where
  "dict_get d k dflt = (case d k of None \<Rightarrow> dflt | Some v \<Rightarrow> v)"

text \<open>
  \<open>create_room\<close> reads the clock twice, once for \<open>created_at\<close> and once for
  \<open>last_activity\<close>: \<open>t_created\<close> and \<open>t_activity\<close> are the two readings.
\<close>

definition new_room :: "timestamp \<Rightarrow> timestamp \<Rightarrow> string \<Rightarrow> (string \<rightharpoonup> jvalue) \<Rightarrow> room" where
  "new_room t_created t_activity pname host_info =
     \<lparr>host = \<lparr>name = pname,
               ip = dict_get host_info ''ip'' JNone,
               port = dict_get host_info ''port'' (JInt 5555),
               public_ip = dict_get host_info ''public_ip'' JNone\<rparr>,
      players = [pname],
      status = ''waiting'',
      created_at = t_created,
      last_activity = t_activity,
      max_players = MAX_PLAYERS_PER_ROOM\<rparr>"

definition create_room ::
  "timestamp \<Rightarrow> timestamp \<Rightarrow> string \<Rightarrow> string \<Rightarrow> (string \<rightharpoonup> jvalue) \<Rightarrow> state
     \<Rightarrow> (error + string) \<times> state" where
  "create_room t_created t_activity room_code pname host_info st =
     (if length (active_rooms st) \<ge> MAX_ROOMS then (Inl CapacityExceeded, st)
      else if map_of (active_rooms st) room_code \<noteq> None then (Inl CodeConflict, st)
      else (Inr room_code,
            save_rooms (st\<lparr>active_rooms :=
              AList.update room_code (new_room t_created t_activity pname host_info)
                (active_rooms st)\<rparr>)))"

subsection \<open>Joining a room\<close>

text \<open>The decimal numeral that an f-string prints for a non-negative integer.\<close>

definition digit_char :: "nat \<Rightarrow> char" where
  "digit_char d = ''0123456789'' ! d"

fun str_nat :: "nat \<Rightarrow> string" where
  "str_nat n = (if n < 10 then [digit_char n] else str_nat (n div 10) @ [digit_char (n mod 10)])"

declare str_nat.simps [simp del]

text \<open>\<open>f"{original_name}_{suffix}"\<close>.\<close>

definition suffixed :: "string \<Rightarrow> nat \<Rightarrow> string" where
  "suffixed original n = original @ ''_'' @ str_nat n"

text \<open>
  The renaming loop of \<open>join_room\<close>. One call is one test of the loop condition;
  \<open>final_name\<close> and \<open>suffix\<close> are the loop variables, and the \<open>break\<close> after the
  hundredth increment leaves the loop with the random token appended, untested.
\<close>

function resolve_loop :: "string list \<Rightarrow> string \<Rightarrow> string \<Rightarrow> string \<Rightarrow> nat \<Rightarrow> string" where
  "resolve_loop roster original tok final_name suffix =
     (if final_name \<in> set roster then
        (if suffix + 1 > 100 then original @ ''_'' @ tok
         else resolve_loop roster original tok (suffixed original suffix) (suffix + 1))
      else final_name)"
  by pat_completeness auto
termination
  by (relation "measure (\<lambda>(roster, original, tok, final_name, suffix). 101 - suffix)") auto

declare resolve_loop.simps [simp del]

definition resolve_name :: "string list \<Rightarrow> string \<Rightarrow> string \<Rightarrow> string" where
  "resolve_name roster tok pname = resolve_loop roster pname tok pname 1"

text \<open>
  The names the loop tests, in the order it tests them: the requested name first, then
  the name with the suffixes 1, 2, ...
\<close>

definition candidate :: "string \<Rightarrow> nat \<Rightarrow> string" where
  "candidate original k = (if k = 0 then original else suffixed original k)"

definition join_room :: "timestamp \<Rightarrow> string \<Rightarrow> string \<Rightarrow> string \<Rightarrow> state \<Rightarrow> (error + joined) \<times> state" where
  "join_room now tok room_code pname st =
     (case map_of (active_rooms st) room_code of
        None \<Rightarrow> (Inl RoomNotFound, st)
      | Some room \<Rightarrow>
          if status room \<noteq> ''waiting'' then (Inl RoomNotAcceptingPlayers, st)
          else if int (length (players room)) \<ge> max_players room then (Inl RoomFull, st)
          else
            let final_name = resolve_name (players room) tok pname;
                room1 = room\<lparr>players := players room @ [final_name], last_activity := now\<rparr>;
                room2 = (if int (length (players room1)) \<ge> max_players room1
                         then room1\<lparr>status := ''in_progress''\<rparr> else room1)
            in (Inr \<lparr>host_ip = ip (host room2),
                     host_port = port (host room2),
                     joined_public_ip = public_ip (host room2),
                     joined_players = players room2,
                     joined_status = status room2,
                     player_name = final_name,
                     name_changed = (final_name \<noteq> pname)\<rparr>,
                save_rooms (st\<lparr>active_rooms := AList.update room_code room2 (active_rooms st)\<rparr>)))"

subsection \<open>Status update, closing, reading\<close>

definition update_room_status :: "timestamp \<Rightarrow> string \<Rightarrow> string \<Rightarrow> state \<Rightarrow> (error + unit) \<times> state" where
  "update_room_status now room_code new_status st =
     (case map_of (active_rooms st) room_code of
        None \<Rightarrow> (Inl RoomNotFound, st)
      | Some room \<Rightarrow>
          (Inr (),
           save_rooms (st\<lparr>active_rooms :=
             AList.update room_code (room\<lparr>status := new_status, last_activity := now\<rparr>)
               (active_rooms st)\<rparr>)))"

definition close_room :: "string \<Rightarrow> state \<Rightarrow> (error + unit) \<times> state" where
  "close_room room_code st =
     (if map_of (active_rooms st) room_code \<noteq> None
      then (Inr (), save_rooms (st\<lparr>active_rooms := AList.delete room_code (active_rooms st)\<rparr>))
      else (Inl RoomNotFound, st))"

definition get_room_info :: "string \<Rightarrow> state \<Rightarrow> error + room" where
  "get_room_info room_code st =
     (case map_of (active_rooms st) room_code of
        Some room \<Rightarrow> Inr room
      | None \<Rightarrow> Inl RoomNotFound)"

definition list_rooms :: "state \<Rightarrow> registry \<times> nat" where
  "list_rooms st = (active_rooms st, length (active_rooms st))"

subsection \<open>Reaping\<close>

text \<open>
  \<open>(now - last_activity).total_seconds() > ROOM_TIMEOUT\<close>. The difference of two
  \<open>datetime\<close> values is a whole number of microseconds and \<open>total_seconds\<close> divides it
  by \<open>10^6\<close>, so the test is the comparison of that number with
  \<open>ROOM_TIMEOUT * 10^6\<close>.
\<close>

definition expired :: "timestamp \<Rightarrow> room \<Rightarrow> bool" where
  "expired now room \<longleftrightarrow> now - last_activity room > ROOM_TIMEOUT * 1000000"

text \<open>
  The first loop collects the codes of the expired rooms, the second deletes them one by
  one (each collected code is a key of the dictionary, so \<open>del\<close> does not raise), and
  the dictionary is dumped once when the collection is not empty.
\<close>

definition cleanup_old_rooms :: "timestamp \<Rightarrow> state \<Rightarrow> nat \<times> state" where
  "cleanup_old_rooms now st =
     (let to_remove = map fst (filter (\<lambda>(code, room). expired now room) (active_rooms st));
          st1 = st\<lparr>active_rooms := fold AList.delete to_remove (active_rooms st)\<rparr>
      in (length to_remove, if to_remove \<noteq> [] then save_rooms st1 else st1))"

subsection \<open>Sequences of operations\<close>

datatype op =
  Create timestamp timestamp string string "(string \<times> jvalue) list"
| Join timestamp string string string
| UpdateStatus timestamp string string
| Close string
| Reap timestamp

fun step :: "op \<Rightarrow> state \<Rightarrow> state" where
  "step (Create t1 t2 c p h) st = snd (create_room t1 t2 c p (map_of h) st)"
| "step (Join t tok c p) st = snd (join_room t tok c p st)"
| "step (UpdateStatus t c s) st = snd (update_room_status t c s st)"
| "step (Close c) st = snd (close_room c st)"
| "step (Reap t) st = snd (cleanup_old_rooms t st)"

definition run :: "op list \<Rightarrow> state \<Rightarrow> state" where
  "run ops st = fold step ops st"

text \<open>Whether an operation reports success: a reaping run succeeds when it removes a room.\<close>

fun succeeds :: "op \<Rightarrow> state \<Rightarrow> bool" where
  "succeeds (Create t1 t2 c p h) st = (\<not> isl (fst (create_room t1 t2 c p (map_of h) st)))"
| "succeeds (Join t tok c p) st = (\<not> isl (fst (join_room t tok c p st)))"
| "succeeds (UpdateStatus t c s) st = (\<not> isl (fst (update_room_status t c s st)))"
| "succeeds (Close c) st = (\<not> isl (fst (close_room c st)))"
| "succeeds (Reap t) st = (fst (cleanup_old_rooms t st) > 0)"

text \<open>The order \<open>waiting < in_progress < completed\<close> on status strings, reflexive.\<close>

definition status_le :: "string \<Rightarrow> string \<Rightarrow> bool" where
  "status_le a b \<longleftrightarrow>
     a = b \<or> (a = ''waiting'' \<and> (b = ''in_progress'' \<or> b = ''completed''))
           \<or> (a = ''in_progress'' \<and> b = ''completed'')"

definition recognized :: "string \<Rightarrow> bool" where
  "recognized s \<longleftrightarrow> s = ''waiting'' \<or> s = ''in_progress'' \<or> s = ''completed''"

definition keys_distinct :: "state \<Rightarrow> bool" where
  "keys_distinct st \<longleftrightarrow> distinct (map fst (active_rooms st))"

text \<open>The operations other than the status update.\<close>

fun is_update :: "op \<Rightarrow> bool" where
  "is_update (UpdateStatus t c s) = True"
| "is_update _ = False"

text \<open>An update that carries one of the three documented status strings, or any other operation.\<close>

fun recognized_update :: "op \<Rightarrow> bool" where
  "recognized_update (UpdateStatus t c s) = recognized s"
| "recognized_update _ = True"

definition all_recognized :: "state \<Rightarrow> bool" where
  "all_recognized st \<longleftrightarrow> list_all (\<lambda>(code, room). recognized (status room)) (active_rooms st)"

subsection \<open>Sample registries\<close>

text \<open>
  A registry of \<open>n\<close> rooms with the codes \<open>0\<close>, \<open>1\<close>, ..., and the states
  reached from the empty registry by one \<open>create_room\<close>, by a following
  \<open>join_room\<close>, and by two \<open>create_room\<close> one second apart.
\<close>

definition numbered_rooms :: "nat \<Rightarrow> registry" where
  "numbered_rooms n = map (\<lambda>i. (str_nat i, new_room 0 0 ''host'' Map.empty)) [0..<n]"

definition one_room_state :: state where
  "one_room_state = snd (create_room 0 0 ''ABCD'' ''Alice'' Map.empty empty_state)"

definition full_room_state :: state where
  "full_room_state =
     snd (join_room 1 ''0000'' ''ABCD'' ''Bob''
       (snd (create_room 0 0 ''ABCD'' ''Alice'' Map.empty empty_state)))"

definition two_room_state :: state where
  "two_room_state =
     snd (create_room 1000000 1000000 ''NEW'' ''Bob'' Map.empty
       (snd (create_room 0 0 ''OLD'' ''Alice'' Map.empty empty_state)))"


section \<open>The name resolver\<close>

subsection \<open>Decimal numerals are injective\<close>

lemma digit_char_inj: "a < 10 \<Longrightarrow> b < 10 \<Longrightarrow> digit_char a = digit_char b \<Longrightarrow> a = b"
proof -
  assume "a < 10" "b < 10" and e: "digit_char a = digit_char b"
  have d: "distinct ''0123456789''" by simp
  have "length ''0123456789'' = 10" by simp
  with d \<open>a < 10\<close> \<open>b < 10\<close> e show "a = b"
    unfolding digit_char_def by (metis nth_eq_iff_index_eq)
qed

lemma str_nat_nonempty: "str_nat n \<noteq> []"
  by (subst str_nat.simps) simp

lemma str_nat_inj: "str_nat m = str_nat n \<Longrightarrow> m = n"
proof (induction m arbitrary: n rule: str_nat.induct)
  case (1 m)
  show ?case
  proof (cases "m < 10")
    case True
    then have m: "str_nat m = [digit_char m]" by (subst str_nat.simps) simp
    show ?thesis
    proof (cases "n < 10")
      case True
      then have "str_nat n = [digit_char n]" by (subst str_nat.simps) simp
      with m "1.prems" \<open>m < 10\<close> True show ?thesis by (simp add: digit_char_inj)
    next
      case False
      then have "str_nat n = str_nat (n div 10) @ [digit_char (n mod 10)]"
        by (subst str_nat.simps) simp
      with m "1.prems" have "str_nat (n div 10) = []" by simp
      then show ?thesis by (simp add: str_nat_nonempty)
    qed
  next
    case False
    then have m: "str_nat m = str_nat (m div 10) @ [digit_char (m mod 10)]"
      by (subst str_nat.simps) simp
    show ?thesis
    proof (cases "n < 10")
      case True
      then have "str_nat n = [digit_char n]" by (subst str_nat.simps) simp
      with m "1.prems" have "str_nat (m div 10) = []" by simp
      then show ?thesis by (simp add: str_nat_nonempty)
    next
      case nf: False
      then have "str_nat n = str_nat (n div 10) @ [digit_char (n mod 10)]"
        by (subst str_nat.simps) simp
      with m "1.prems" have e1: "str_nat (m div 10) = str_nat (n div 10)"
        and e2: "digit_char (m mod 10) = digit_char (n mod 10)" by simp_all
      from "1.IH" [OF False e1] have "m div 10 = n div 10" .
      moreover from e2 have "m mod 10 = n mod 10" by (simp add: digit_char_inj)
      ultimately show ?thesis by (metis div_mult_mod_eq)
    qed
  qed
qed

lemma suffixed_inj: "suffixed original m = suffixed original n \<Longrightarrow> m = n"
  by (simp add: suffixed_def str_nat_inj)

lemma suffixed_neq: "suffixed original n \<noteq> original"
  by (simp add: suffixed_def)


subsection \<open>The renaming loop\<close>

lemma candidate_inj: "candidate original j = candidate original k \<Longrightarrow> j = k"
  using suffixed_neq [of original j] suffixed_neq [of original k]
  by (auto simp: candidate_def dest: suffixed_inj split: if_splits)

lemma resolve_loop_finds:
  assumes "k \<le> 99" "candidate original k \<notin> set roster"
    and "\<forall>j. s \<le> j + 1 \<and> j < k \<longrightarrow> candidate original j \<in> set roster"
    and "1 \<le> s" "s \<le> k + 1"
  shows "resolve_loop roster original tok (candidate original (s - 1)) s = candidate original k"
  using assms
proof (induction "k + 1 - s" arbitrary: s)
  case 0
  then have "s - 1 = k" by simp
  with 0 show ?case by (subst resolve_loop.simps) simp
next
  case (Suc d)
  then have lt: "s - 1 < k" by simp
  with Suc.prems have mem: "candidate original (s - 1) \<in> set roster" by simp
  from lt Suc.prems have s100: "\<not> s + 1 > 100" by simp
  have c: "suffixed original s = candidate original (s + 1 - 1)"
    using Suc.prems by (simp add: candidate_def)
  have "resolve_loop roster original tok (candidate original (s + 1 - 1)) (s + 1)
        = candidate original k"
  proof (rule Suc.hyps(1))
    show "d = k + 1 - (s + 1)" using Suc.hyps(2) by simp
    show "k \<le> 99" by fact
    show "candidate original k \<notin> set roster" by fact
    show "\<forall>j. s + 1 \<le> j + 1 \<and> j < k \<longrightarrow> candidate original j \<in> set roster"
      using Suc.prems by simp
    show "1 \<le> s + 1" by simp
    show "s + 1 \<le> k + 1" using lt Suc.prems by simp
  qed
  with mem s100 c show ?case by (subst resolve_loop.simps) simp
qed

lemma free_candidate:
  assumes "length roster < 100"
  shows "\<exists>k\<le>99. candidate original k \<notin> set roster"
proof (rule ccontr)
  assume "\<not> ?thesis"
  then have sub: "candidate original ` {0..99} \<subseteq> set roster" by auto
  have "inj_on (candidate original) {0..99}"
    by (rule inj_onI) (rule candidate_inj)
  then have "card (candidate original ` {0..99}) = 100" by (simp add: card_image)
  moreover have "card (candidate original ` {0..99}) \<le> card (set roster)"
    using sub by (simp add: card_mono)
  moreover have "card (set roster) \<le> length roster" by (rule card_length)
  ultimately show False using assms by simp
qed

lemma resolve_name_least:
  assumes "length roster < 100"
  shows "\<exists>k\<le>99. resolve_name roster tok pname = candidate pname k
           \<and> candidate pname k \<notin> set roster
           \<and> (\<forall>j<k. candidate pname j \<in> set roster)"
proof -
  define k where "k = (LEAST k. candidate pname k \<notin> set roster)"
  from free_candidate [OF assms] obtain k0 where k0: "k0 \<le> 99" "candidate pname k0 \<notin> set roster"
    by blast
  then have free: "candidate pname k \<notin> set roster" unfolding k_def by (metis LeastI)
  have le: "k \<le> 99" using k0 unfolding k_def by (metis Least_le le_trans)
  have below: "\<forall>j<k. candidate pname j \<in> set roster"
    unfolding k_def using not_less_Least by blast
  have "resolve_loop roster pname tok (candidate pname (1 - 1)) 1 = candidate pname k"
    by (rule resolve_loop_finds) (use le free below in auto)
  then have "resolve_name roster tok pname = candidate pname k"
    by (simp add: resolve_name_def candidate_def)
  with le free below show ?thesis by blast
qed


section \<open>Facts about the registry\<close>

subsection \<open>Association lists\<close>

lemma update_fresh: "k \<notin> fst ` set al \<Longrightarrow> AList.update k v al = al @ [(k, v)]"
  by (induction al) auto

lemma set_update_subset: "set (AList.update k v al) \<subseteq> insert (k, v) (set al)"
  by (induction al) auto

lemma fold_delete_filter:
  "fold AList.delete ks al = filter (\<lambda>(k, v). k \<notin> set ks) al"
proof (induction ks arbitrary: al)
  case Nil
  then show ?case by simp
next
  case (Cons k ks)
  have "filter (\<lambda>(k', v). k' \<notin> set ks) (filter (\<lambda>(k', v). k \<noteq> k') al)
          = filter (\<lambda>(k', v). k' \<notin> set (k # ks)) al"
    by (auto intro: filter_cong)
  with Cons show ?case by (simp add: AList.delete_eq)
qed

lemma map_of_fold_delete:
  "map_of (fold AList.delete ks al) k = (if k \<in> set ks then None else map_of al k)"
  by (induction ks arbitrary: al) (auto simp: delete_conv')

lemma keys_of_selected:
  assumes "distinct (map fst al)" and "(k, v) \<in> set al"
  shows "k \<in> set (map fst (filter P al)) \<longleftrightarrow> P (k, v)"
proof
  assume "k \<in> set (map fst (filter P al))"
  then obtain v' where v': "(k, v') \<in> set al" "P (k, v')" by auto
  with assms have "v' = v" by (meson eq_key_imp_eq_value)
  with v' show "P (k, v)" by simp
next
  assume "P (k, v)"
  with assms(2) show "k \<in> set (map fst (filter P al))" by force
qed

lemma fold_delete_selected:
  assumes "distinct (map fst al)"
  shows "fold AList.delete (map fst (filter P al)) al = filter (\<lambda>x. \<not> P x) al"
proof -
  have "filter (\<lambda>(k, v). k \<notin> set (map fst (filter P al))) al = filter (\<lambda>x. \<not> P x) al"
    by (rule filter_cong) (use keys_of_selected [OF assms] in auto)
  then show ?thesis by (simp only: fold_delete_filter)
qed


subsection \<open>The sample registries\<close>

lemma map_of_numbered:
  "k < n \<Longrightarrow> map_of (numbered_rooms n) (str_nat k) = Some (new_room 0 0 ''host'' Map.empty)"
proof -
  assume "k < n"
  then have "(str_nat k, new_room 0 0 ''host'' Map.empty) \<in> set (numbered_rooms n)"
    by (auto simp: numbered_rooms_def)
  then have "map_of (numbered_rooms n) (str_nat k) \<noteq> None"
    by (metis map_of_eq_None_iff fst_conv image_eqI)
  then obtain r where r: "map_of (numbered_rooms n) (str_nat k) = Some r" by blast
  then have "(str_nat k, r) \<in> set (numbered_rooms n)" by (rule map_of_SomeD)
  then have "r = new_room 0 0 ''host'' Map.empty" by (auto simp: numbered_rooms_def)
  with r show ?thesis by simp
qed

lemma length_numbered: "length (numbered_rooms n) = n"
  by (simp add: numbered_rooms_def)

lemma one_room_state_eq:
  "one_room_state =
     \<lparr>active_rooms = [(''ABCD'', \<lparr>host = \<lparr>name = ''Alice'', ip = JNone, port = JInt 5555, public_ip = JNone\<rparr>,
         players = [''Alice''], status = ''waiting'', created_at = 0, last_activity = 0,
         max_players = 2\<rparr>)],
      rooms_file = [
        [(''ABCD'', \<lparr>host = \<lparr>name = ''Alice'', ip = JNone, port = JInt 5555, public_ip = JNone\<rparr>,
         players = [''Alice''], status = ''waiting'', created_at = 0, last_activity = 0,
         max_players = 2\<rparr>)]]\<rparr>"
  by (simp add: one_room_state_def create_room_def empty_state_def save_rooms_def
      new_room_def dict_get_def MAX_ROOMS_def MAX_PLAYERS_PER_ROOM_def)

lemma full_room_state_eq:
  "full_room_state =
     \<lparr>active_rooms = [(''ABCD'', \<lparr>host = \<lparr>name = ''Alice'', ip = JNone, port = JInt 5555, public_ip = JNone\<rparr>,
         players = [''Alice'', ''Bob''], status = ''in_progress'', created_at = 0, last_activity = 1,
         max_players = 2\<rparr>)],
      rooms_file = [
        [(''ABCD'', \<lparr>host = \<lparr>name = ''Alice'', ip = JNone, port = JInt 5555, public_ip = JNone\<rparr>,
         players = [''Alice''], status = ''waiting'', created_at = 0, last_activity = 0,
         max_players = 2\<rparr>)],
        [(''ABCD'', \<lparr>host = \<lparr>name = ''Alice'', ip = JNone, port = JInt 5555, public_ip = JNone\<rparr>,
         players = [''Alice'', ''Bob''], status = ''in_progress'', created_at = 0, last_activity = 1,
         max_players = 2\<rparr>)]]\<rparr>"
  by (simp add: full_room_state_def create_room_def join_room_def empty_state_def save_rooms_def
      new_room_def dict_get_def MAX_ROOMS_def MAX_PLAYERS_PER_ROOM_def resolve_name_def
      resolve_loop.simps Let_def)

lemma two_room_state_rooms:
  "active_rooms two_room_state =
     [(''OLD'', \<lparr>host = \<lparr>name = ''Alice'', ip = JNone, port = JInt 5555, public_ip = JNone\<rparr>,
         players = [''Alice''], status = ''waiting'', created_at = 0, last_activity = 0,
         max_players = 2\<rparr>),
      (''NEW'', \<lparr>host = \<lparr>name = ''Bob'', ip = JNone, port = JInt 5555, public_ip = JNone\<rparr>,
         players = [''Bob''], status = ''waiting'', created_at = 1000000, last_activity = 1000000,
         max_players = 2\<rparr>)]"
  by (simp add: two_room_state_def create_room_def empty_state_def save_rooms_def
      new_room_def dict_get_def MAX_ROOMS_def MAX_PLAYERS_PER_ROOM_def)


subsection \<open>Codes stay distinct\<close>

lemma keys_distinct_step: "keys_distinct st \<Longrightarrow> keys_distinct (step op st)"
proof (cases op)
  case (Create t1 t2 c p h)
  assume "keys_distinct st"
  with Create show ?thesis
    by (simp add: keys_distinct_def create_room_def save_rooms_def distinct_update)
next
  case (Join t tok c p)
  assume "keys_distinct st"
  with Join show ?thesis
    by (simp add: keys_distinct_def join_room_def save_rooms_def Let_def distinct_update
        split: option.split)
next
  case (UpdateStatus t c s)
  assume "keys_distinct st"
  with UpdateStatus show ?thesis
    by (simp add: keys_distinct_def update_room_status_def save_rooms_def distinct_update
        split: option.split)
next
  case (Close c)
  assume "keys_distinct st"
  with Close show ?thesis
    by (simp add: keys_distinct_def close_room_def save_rooms_def distinct_delete)
next
  case (Reap t)
  assume "keys_distinct st"
  with Reap show ?thesis
    by (simp add: keys_distinct_def cleanup_old_rooms_def save_rooms_def Let_def
        fold_delete_filter distinct_map_filter)
qed

lemma keys_distinct_run: "keys_distinct st \<Longrightarrow> keys_distinct (run ops st)"
  by (induction ops arbitrary: st) (simp_all add: run_def keys_distinct_step)

lemma keys_distinct_reachable: "keys_distinct (run ops empty_state)"
  by (rule keys_distinct_run) (simp add: keys_distinct_def empty_state_def)


subsection \<open>The status order and single steps\<close>

lemma status_le_refl: "status_le a a"
  by (simp add: status_le_def)

lemma status_le_trans: "status_le a b \<Longrightarrow> status_le b c \<Longrightarrow> status_le a c"
  by (auto simp: status_le_def)

lemma join_room_rejected:
  assumes "map_of (active_rooms st) room_code = Some room"
    and "int (length (players room)) \<ge> max_players room"
  shows "join_room now tok room_code pname st =
           (Inl (if status room = ''waiting'' then RoomFull else RoomNotAcceptingPlayers), st)"
  using assms by (simp add: join_room_def)

lemma create_room_keeps:
  assumes "map_of (active_rooms st) c = Some r"
  shows "map_of (active_rooms (snd (create_room t1 t2 c' p h st))) c = Some r"
  using assms by (auto simp: create_room_def save_rooms_def update_conv')

lemma join_room_status:
  assumes "map_of (active_rooms st) c = Some r"
    and "map_of (active_rooms (snd (join_room t tok c' p st))) c = Some r'"
  shows "status r' = status r \<or> (status r = ''waiting'' \<and> status r' = ''in_progress'')"
  using assms
  by (auto simp: join_room_def Let_def save_rooms_def update_conv'
      split: option.splits if_splits)

lemma close_room_keeps:
  assumes "map_of (active_rooms st) c = Some r"
    and "map_of (active_rooms (snd (close_room c' st))) c = Some r'"
  shows "r' = r"
  using assms
  by (auto simp: close_room_def save_rooms_def delete_conv' split: if_splits)

lemma cleanup_old_rooms_keeps:
  assumes "map_of (active_rooms st) c = Some r"
    and "map_of (active_rooms (snd (cleanup_old_rooms t st))) c = Some r'"
  shows "r' = r"
proof -
  have "active_rooms (snd (cleanup_old_rooms t st))
      = fold AList.delete (map fst (filter (\<lambda>(code, room). expired t room) (active_rooms st)))
          (active_rooms st)"
    by (simp add: cleanup_old_rooms_def Let_def save_rooms_def)
  with assms show ?thesis by (simp add: map_of_fold_delete split: if_splits)
qed

lemma step_status_forward:
  assumes "\<not> is_update op" and "map_of (active_rooms st) c = Some r"
    and "map_of (active_rooms (step op st)) c = Some r'"
  shows "status_le (status r) (status r')"
proof (cases op)
  case (Create t1 t2 c' p h)
  with assms(2,3) create_room_keeps [OF assms(2), of t1 t2 c' p "map_of h"]
  show ?thesis by (simp add: status_le_refl)
next
  case (Join t tok c' p)
  with assms(2,3) join_room_status [of st c r t tok c' p r']
  show ?thesis by (auto simp: status_le_def)
next
  case (UpdateStatus t c' s)
  with assms(1) show ?thesis by simp
next
  case (Close c')
  with assms(2,3) close_room_keeps [of st c r c' r']
  show ?thesis by (simp add: status_le_refl)
next
  case (Reap t)
  with assms(2,3) cleanup_old_rooms_keeps [of st c r t r']
  show ?thesis by (simp add: status_le_refl)
qed


subsection \<open>Recognized status strings\<close>

lemma all_recognized_iff:
  "all_recognized st \<longleftrightarrow> (\<forall>(code, room)\<in>set (active_rooms st). recognized (status room))"
  by (simp add: all_recognized_def list_all_iff)

lemma all_recognized_update:
  assumes "all_recognized st" and "recognized (status room)"
  shows "all_recognized (save_rooms (st\<lparr>active_rooms := AList.update c room (active_rooms st)\<rparr>))"
  using assms set_update_subset [of c room "active_rooms st"]
  by (auto simp: all_recognized_iff save_rooms_def)

lemma all_recognized_lookup:
  "all_recognized st \<Longrightarrow> map_of (active_rooms st) c = Some room \<Longrightarrow> recognized (status room)"
  by (auto simp: all_recognized_iff dest: map_of_SomeD)

lemma all_recognized_create:
  assumes "all_recognized st"
  shows "all_recognized (snd (create_room t1 t2 c p h st))"
proof -
  have "recognized (status (new_room t1 t2 p h))" by (simp add: new_room_def recognized_def)
  with assms show ?thesis by (simp add: create_room_def all_recognized_update)
qed

lemma all_recognized_join:
  assumes "all_recognized st"
  shows "all_recognized (snd (join_room t tok c p st))"
proof (cases "map_of (active_rooms st) c")
  case None
  with assms show ?thesis by (simp add: join_room_def)
next
  case (Some room)
  with assms have "recognized (status room)" by (rule all_recognized_lookup)
  moreover have "recognized ''in_progress''" by (simp add: recognized_def)
  ultimately show ?thesis using assms Some
    by (auto simp: join_room_def Let_def intro!: all_recognized_update)
qed

lemma all_recognized_update_status:
  assumes "all_recognized st" and "recognized s"
  shows "all_recognized (snd (update_room_status t c s st))"
  using assms
  by (auto simp: update_room_status_def split: option.splits intro!: all_recognized_update)

lemma all_recognized_close:
  assumes "all_recognized st"
  shows "all_recognized (snd (close_room c st))"
  using assms
  by (auto simp: close_room_def all_recognized_iff save_rooms_def AList.delete_eq)

lemma all_recognized_cleanup:
  assumes "all_recognized st"
  shows "all_recognized (snd (cleanup_old_rooms t st))"
  using assms
  by (auto simp: cleanup_old_rooms_def Let_def all_recognized_iff save_rooms_def fold_delete_filter)

lemma all_recognized_step:
  assumes "all_recognized st" and "recognized_update op"
  shows "all_recognized (step op st)"
  using assms
  by (cases op)
    (simp_all add: all_recognized_create all_recognized_join all_recognized_update_status
      all_recognized_close all_recognized_cleanup)

lemma all_recognized_run:
  assumes "all_recognized st" and "\<forall>op\<in>set ops. recognized_update op"
  shows "all_recognized (run ops st)"
  using assms
  by (induction ops arbitrary: st) (simp_all add: run_def all_recognized_step)


section \<open>Claims\<close>

text \<open>
  Claim C1, amended. A room that a successful \<open>join_room\<close> leaves with
  \<open>max_players\<close> players or more has status \<open>in_progress\<close>. Every \<open>join_room\<close>
  on a room that holds \<open>max_players\<close> players or more fails and returns the state as it
  was; the status test comes before the capacity test, so the error is
  \<open>RoomNotAcceptingPlayers\<close> whenever the status is not \<open>waiting\<close> (in particular
  \<open>in_progress\<close>), and \<open>RoomFull\<close> only for a room at capacity whose status is
  \<open>waiting\<close>.
\<close>

theorem join_room_at_capacity:
  "(fst (join_room now tok room_code pname st) = Inr res
      \<and> map_of (active_rooms (snd (join_room now tok room_code pname st))) room_code = Some room'
      \<and> int (length (players room')) \<ge> max_players room'
    \<longrightarrow> status room' = ''in_progress'')
   \<and> (map_of (active_rooms st) room_code = Some room
      \<and> int (length (players room)) \<ge> max_players room
    \<longrightarrow> join_room now tok room_code pname st =
          (Inl (if status room = ''waiting'' then RoomFull else RoomNotAcceptingPlayers), st))"
proof (intro conjI impI)
  assume a: "fst (join_room now tok room_code pname st) = Inr res
      \<and> map_of (active_rooms (snd (join_room now tok room_code pname st))) room_code = Some room'
      \<and> int (length (players room')) \<ge> max_players room'"
  then show "status room' = ''in_progress''"
    by (auto simp: join_room_def Let_def save_rooms_def update_conv'
        split: option.splits if_splits)
next
  assume "map_of (active_rooms st) room_code = Some room
      \<and> int (length (players room)) \<ge> max_players room"
  then show "join_room now tok room_code pname st =
          (Inl (if status room = ''waiting'' then RoomFull else RoomNotAcceptingPlayers), st)"
    by (simp add: join_room_rejected)
qed

theorem join_room_at_capacity_witness:
  "fst (join_room 1 ''0000'' ''ABCD'' ''Bob'' one_room_state) =
      Inr \<lparr>host_ip = JNone, host_port = JInt 5555, joined_public_ip = JNone,
           joined_players = [''Alice'', ''Bob''], joined_status = ''in_progress'',
           player_name = ''Bob'', name_changed = False\<rparr>
   \<and> map_of (active_rooms (snd (join_room 1 ''0000'' ''ABCD'' ''Bob'' one_room_state))) ''ABCD'' =
      Some \<lparr>host = \<lparr>name = ''Alice'', ip = JNone, port = JInt 5555, public_ip = JNone\<rparr>,
         players = [''Alice'', ''Bob''], status = ''in_progress'', created_at = 0, last_activity = 1,
         max_players = 2\<rparr>
   \<and> map_of (active_rooms full_room_state) ''ABCD'' =
      Some \<lparr>host = \<lparr>name = ''Alice'', ip = JNone, port = JInt 5555, public_ip = JNone\<rparr>,
         players = [''Alice'', ''Bob''], status = ''in_progress'', created_at = 0, last_activity = 1,
         max_players = 2\<rparr>
   \<and> join_room 2 ''0000'' ''ABCD'' ''Carol'' full_room_state
        = (Inl RoomNotAcceptingPlayers, full_room_state)"
proof -
  let ?room2 = "\<lparr>host = \<lparr>name = ''Alice'', ip = JNone, port = JInt 5555, public_ip = JNone\<rparr>,
         players = [''Alice'', ''Bob''], status = ''in_progress'', created_at = 0, last_activity = 1,
         max_players = 2\<rparr>"
  let ?res = "\<lparr>host_ip = JNone, host_port = JInt 5555, joined_public_ip = JNone,
           joined_players = [''Alice'', ''Bob''], joined_status = ''in_progress'',
           player_name = ''Bob'', name_changed = False\<rparr>"
  have j: "join_room 1 ''0000'' ''ABCD'' ''Bob'' one_room_state = (Inr ?res, full_room_state)"
    by (simp add: one_room_state_eq full_room_state_eq join_room_def save_rooms_def
        resolve_name_def resolve_loop.simps Let_def)
  have a: "fst (join_room 1 ''0000'' ''ABCD'' ''Bob'' one_room_state) = Inr ?res"
    by (simp add: j)
  have b: "map_of (active_rooms (snd (join_room 1 ''0000'' ''ABCD'' ''Bob'' one_room_state))) ''ABCD''
             = Some ?room2"
    by (simp add: j full_room_state_eq)
  have c: "map_of (active_rooms full_room_state) ''ABCD'' = Some ?room2"
    by (simp add: full_room_state_eq)
  have d: "int (length (players ?room2)) \<ge> max_players ?room2" by simp
  have e: "status ?room2 \<noteq> ''waiting''" by simp
  from join_room_at_capacity [of 2 "''0000''" "''ABCD''" "''Carol''" full_room_state ?res ?room2 ?room2]
    c d e
  have "join_room 2 ''0000'' ''ABCD'' ''Carol'' full_room_state
          = (Inl RoomNotAcceptingPlayers, full_room_state)"
    by simp
  with a b c show ?thesis by simp
qed


text \<open>
  Claim C1 as stated fails: after Alice created room \<open>ABCD\<close> and Bob joined it, the room
  holds \<open>MAX_PLAYERS_PER_ROOM\<close> players with status \<open>in_progress\<close>, and Carol's
  \<open>join_room\<close> is answered \<open>RoomNotAcceptingPlayers\<close>, not \<open>RoomFull\<close>.
\<close>

theorem join_room_full_counterexample:
  "map_option players (map_of (active_rooms full_room_state) ''ABCD'') = Some [''Alice'', ''Bob'']
   \<and> int (length [''Alice'', ''Bob'']) = MAX_PLAYERS_PER_ROOM
   \<and> map_option status (map_of (active_rooms full_room_state) ''ABCD'') = Some ''in_progress''
   \<and> fst (join_room 2 ''0000'' ''ABCD'' ''Carol'' full_room_state) = Inl RoomNotAcceptingPlayers
   \<and> fst (join_room 2 ''0000'' ''ABCD'' ''Carol'' full_room_state) \<noteq> Inl RoomFull"
  by (simp add: full_room_state_eq join_room_def MAX_PLAYERS_PER_ROOM_def)


text \<open>
  Claim C2. \<open>create_room\<close> returns \<open>CapacityExceeded\<close> when the registry holds
  \<open>MAX_ROOMS\<close> (1000) rooms or more; below that it returns \<open>CodeConflict\<close> when the
  code is registered; in both cases the whole state, and so the registered room, is the
  one before the call. Otherwise it succeeds with the code and appends a room whose status
  is \<open>waiting\<close>, whose players are the creator alone, and whose \<open>created_at\<close> and
  \<open>last_activity\<close> are the two clock readings of the call.
\<close>

theorem create_room_outcomes:
  "(length (active_rooms st) \<ge> MAX_ROOMS \<longrightarrow>
      create_room t_created t_activity room_code pname host_info st = (Inl CapacityExceeded, st))
   \<and> (length (active_rooms st) < MAX_ROOMS \<and> map_of (active_rooms st) room_code \<noteq> None \<longrightarrow>
      create_room t_created t_activity room_code pname host_info st = (Inl CodeConflict, st))
   \<and> (length (active_rooms st) < MAX_ROOMS \<and> map_of (active_rooms st) room_code = None \<longrightarrow>
      (\<exists>r. fst (create_room t_created t_activity room_code pname host_info st) = Inr room_code
         \<and> active_rooms (snd (create_room t_created t_activity room_code pname host_info st))
             = active_rooms st @ [(room_code, r)]
         \<and> get_room_info room_code (snd (create_room t_created t_activity room_code pname host_info st))
             = Inr r
         \<and> status r = ''waiting'' \<and> players r = [pname]
         \<and> created_at r = t_created \<and> last_activity r = t_activity))"
proof (intro conjI impI)
  assume "length (active_rooms st) \<ge> MAX_ROOMS"
  then show "create_room t_created t_activity room_code pname host_info st = (Inl CapacityExceeded, st)"
    by (simp add: create_room_def)
next
  assume "length (active_rooms st) < MAX_ROOMS \<and> map_of (active_rooms st) room_code \<noteq> None"
  then show "create_room t_created t_activity room_code pname host_info st = (Inl CodeConflict, st)"
    by (simp add: create_room_def)
next
  assume a: "length (active_rooms st) < MAX_ROOMS \<and> map_of (active_rooms st) room_code = None"
  then have fresh: "room_code \<notin> fst ` set (active_rooms st)"
    by (simp add: map_of_eq_None_iff)
  let ?r = "new_room t_created t_activity pname host_info"
  have app: "AList.update room_code ?r (active_rooms st) = active_rooms st @ [(room_code, ?r)]"
    using fresh by (rule update_fresh)
  have 1: "fst (create_room t_created t_activity room_code pname host_info st) = Inr room_code"
    using a by (simp add: create_room_def)
  have 2: "active_rooms (snd (create_room t_created t_activity room_code pname host_info st))
             = active_rooms st @ [(room_code, ?r)]"
    using a app by (simp add: create_room_def save_rooms_def)
  have 3: "get_room_info room_code (snd (create_room t_created t_activity room_code pname host_info st))
             = Inr ?r"
    using a by (simp add: get_room_info_def create_room_def save_rooms_def update_conv')
  have 4: "status ?r = ''waiting'' \<and> players ?r = [pname]
         \<and> created_at ?r = t_created \<and> last_activity ?r = t_activity"
    by (simp add: new_room_def)
  from 1 2 3 4 show "\<exists>r. fst (create_room t_created t_activity room_code pname host_info st) = Inr room_code
         \<and> active_rooms (snd (create_room t_created t_activity room_code pname host_info st))
             = active_rooms st @ [(room_code, r)]
         \<and> get_room_info room_code (snd (create_room t_created t_activity room_code pname host_info st))
             = Inr r
         \<and> status r = ''waiting'' \<and> players r = [pname]
         \<and> created_at r = t_created \<and> last_activity r = t_activity"
    by blast
qed

theorem create_room_outcomes_witness:
  "length (active_rooms \<lparr>active_rooms = numbered_rooms 1000, rooms_file = []\<rparr>) \<ge> MAX_ROOMS
   \<and> create_room 5 5 ''ABCD'' ''Alice'' Map.empty \<lparr>active_rooms = numbered_rooms 1000, rooms_file = []\<rparr>
       = (Inl CapacityExceeded, \<lparr>active_rooms = numbered_rooms 1000, rooms_file = []\<rparr>)
   \<and> length (active_rooms one_room_state) < MAX_ROOMS
   \<and> map_of (active_rooms one_room_state) ''ABCD'' \<noteq> None
   \<and> create_room 5 5 ''ABCD'' ''Bob'' Map.empty one_room_state = (Inl CodeConflict, one_room_state)
   \<and> length (active_rooms empty_state) < MAX_ROOMS
   \<and> map_of (active_rooms empty_state) ''ABCD'' = None
   \<and> (\<exists>r. fst (create_room 5 6 ''ABCD'' ''Alice'' Map.empty empty_state) = Inr ''ABCD''
         \<and> active_rooms (snd (create_room 5 6 ''ABCD'' ''Alice'' Map.empty empty_state)) = [(''ABCD'', r)]
         \<and> status r = ''waiting'' \<and> players r = [''Alice'']
         \<and> created_at r = 5 \<and> last_activity r = 6)"
proof -
  have a: "length (active_rooms \<lparr>active_rooms = numbered_rooms 1000, rooms_file = []\<rparr>) \<ge> MAX_ROOMS"
    by (simp add: length_numbered MAX_ROOMS_def)
  have b: "length (active_rooms one_room_state) < MAX_ROOMS
     \<and> map_of (active_rooms one_room_state) ''ABCD'' \<noteq> None"
    by (simp add: one_room_state_eq MAX_ROOMS_def)
  have c: "length (active_rooms empty_state) < MAX_ROOMS
     \<and> map_of (active_rooms empty_state) ''ABCD'' = None"
    by (simp add: empty_state_def MAX_ROOMS_def)
  have e: "active_rooms empty_state = []" by (simp add: empty_state_def)
  show ?thesis
    using a b c
      create_room_outcomes [of "\<lparr>active_rooms = numbered_rooms 1000, rooms_file = []\<rparr>" 5 5 "''ABCD''" "''Alice''" Map.empty]
      create_room_outcomes [of one_room_state 5 5 "''ABCD''" "''Bob''" Map.empty]
      create_room_outcomes [of empty_state 5 6 "''ABCD''" "''Alice''" Map.empty]
    unfolding e by (simp only: append_Nil) blast
qed


text \<open>
  Claim C3. On a room with status \<open>waiting\<close> and fewer players than \<open>max_players\<close>,
  \<open>join_room\<close> succeeds: the stored room has the resolved name appended to its players
  and \<open>last_activity\<close> set to the clock reading, its status is \<open>in_progress\<close> exactly
  when the number of players has reached \<open>max_players\<close> and \<open>waiting\<close> otherwise,
  and the result carries the host's connection data, the new player list, the new status,
  the resolved name and a flag that holds exactly when the resolved name is not the
  requested one.
\<close>

theorem join_room_success:
  assumes "map_of (active_rooms st) room_code = Some room"
    and "status room = ''waiting''"
    and "int (length (players room)) < max_players room"
  shows "\<exists>res room'.
      fst (join_room now tok room_code pname st) = Inr res
    \<and> get_room_info room_code (snd (join_room now tok room_code pname st)) = Inr room'
    \<and> players room' = players room @ [resolve_name (players room) tok pname]
    \<and> last_activity room' = now
    \<and> (status room' = ''in_progress'' \<longleftrightarrow> int (length (players room')) = max_players room')
    \<and> (status room' = ''waiting'' \<longleftrightarrow> int (length (players room')) \<noteq> max_players room')
    \<and> host room' = host room \<and> created_at room' = created_at room
    \<and> max_players room' = max_players room
    \<and> host_ip res = ip (host room) \<and> host_port res = port (host room)
    \<and> joined_public_ip res = public_ip (host room)
    \<and> joined_players res = players room' \<and> joined_status res = status room'
    \<and> player_name res = resolve_name (players room) tok pname
    \<and> (name_changed res \<longleftrightarrow> resolve_name (players room) tok pname \<noteq> pname)"
proof -
  let ?final = "resolve_name (players room) tok pname"
  let ?room1 = "room\<lparr>players := players room @ [?final], last_activity := now\<rparr>"
  let ?room2 = "if int (length (players ?room1)) \<ge> max_players ?room1
                then ?room1\<lparr>status := ''in_progress''\<rparr> else ?room1"
  let ?res = "\<lparr>host_ip = ip (host ?room2), host_port = port (host ?room2),
               joined_public_ip = public_ip (host ?room2), joined_players = players ?room2,
               joined_status = status ?room2, player_name = ?final,
               name_changed = (?final \<noteq> pname)\<rparr>"
  have j: "join_room now tok room_code pname st =
      (Inr ?res, save_rooms (st\<lparr>active_rooms := AList.update room_code ?room2 (active_rooms st)\<rparr>))"
    using assms by (simp add: join_room_def Let_def)
  have g: "get_room_info room_code (snd (join_room now tok room_code pname st)) = Inr ?room2"
    unfolding j by (simp add: get_room_info_def save_rooms_def update_conv')
  have reach: "int (length (players ?room1)) \<ge> max_players ?room1
                 \<longleftrightarrow> int (length (players ?room1)) = max_players ?room1"
    using assms(3) by auto
  have p: "players ?room2 = players room @ [?final]" by simp
  have s1: "status ?room2 = ''in_progress'' \<longleftrightarrow> int (length (players ?room2)) = max_players ?room2"
    using assms(2,3) by auto
  have s2: "status ?room2 = ''waiting'' \<longleftrightarrow> int (length (players ?room2)) \<noteq> max_players ?room2"
    using assms(2,3) by auto
  have rest: "last_activity ?room2 = now \<and> host ?room2 = host room
     \<and> created_at ?room2 = created_at room \<and> max_players ?room2 = max_players room"
    by simp
  have r: "host_ip ?res = ip (host room) \<and> host_port ?res = port (host room)
    \<and> joined_public_ip ?res = public_ip (host room)
    \<and> joined_players ?res = players ?room2 \<and> joined_status ?res = status ?room2
    \<and> player_name ?res = ?final \<and> (name_changed ?res \<longleftrightarrow> ?final \<noteq> pname)"
    by simp
  have f: "fst (join_room now tok room_code pname st) = Inr ?res" unfolding j by simp
  show ?thesis
    apply (rule exI [of _ ?res])
    apply (rule exI [of _ ?room2])
    using f g p s1 s2 rest r by blast
qed

theorem join_room_success_witness:
  "map_of (active_rooms one_room_state) ''ABCD'' =
     Some \<lparr>host = \<lparr>name = ''Alice'', ip = JNone, port = JInt 5555, public_ip = JNone\<rparr>,
         players = [''Alice''], status = ''waiting'', created_at = 0, last_activity = 0,
         max_players = 2\<rparr>
   \<and> (\<exists>res room'.
        fst (join_room 1 ''0000'' ''ABCD'' ''Bob'' one_room_state) = Inr res
      \<and> get_room_info ''ABCD'' (snd (join_room 1 ''0000'' ''ABCD'' ''Bob'' one_room_state)) = Inr room'
      \<and> players room' = [''Alice'', ''Bob''] \<and> status room' = ''in_progress''
      \<and> last_activity room' = 1
      \<and> joined_players res = [''Alice'', ''Bob''] \<and> joined_status res = ''in_progress''
      \<and> player_name res = ''Bob'' \<and> \<not> name_changed res)"
proof -
  let ?room = "\<lparr>host = \<lparr>name = ''Alice'', ip = JNone, port = JInt 5555, public_ip = JNone\<rparr>,
         players = [''Alice''], status = ''waiting'', created_at = 0, last_activity = 0,
         max_players = 2\<rparr>"
  have a: "map_of (active_rooms one_room_state) ''ABCD'' = Some ?room"
    by (simp add: one_room_state_eq)
  have b: "status ?room = ''waiting''" by simp
  have c: "int (length (players ?room)) < max_players ?room" by simp
  have n: "resolve_name [''Alice''] ''0000'' ''Bob'' = ''Bob''"
    by (simp add: resolve_name_def resolve_loop.simps)
  from join_room_success [OF a b c, of 1 "''0000''" "''Bob''"] obtain res room' where
    r: "fst (join_room 1 ''0000'' ''ABCD'' ''Bob'' one_room_state) = Inr res"
      "get_room_info ''ABCD'' (snd (join_room 1 ''0000'' ''ABCD'' ''Bob'' one_room_state)) = Inr room'"
      "players room' = players ?room @ [resolve_name (players ?room) ''0000'' ''Bob'']"
      "last_activity room' = 1"
      "status room' = ''in_progress'' \<longleftrightarrow> int (length (players room')) = max_players room'"
      "max_players room' = max_players ?room"
      "joined_players res = players room'" "joined_status res = status room'"
      "player_name res = resolve_name (players ?room) ''0000'' ''Bob''"
      "name_changed res \<longleftrightarrow> resolve_name (players ?room) ''0000'' ''Bob'' \<noteq> ''Bob''"
    by blast
  have p: "players room' = [''Alice'', ''Bob'']" using r(3) n by simp
  have s: "status room' = ''in_progress''" using r(5,6) p by simp
  have pn: "player_name res = ''Bob''" using r(9) n by simp
  have nc: "\<not> name_changed res" using r(10) n by simp
  show ?thesis using a r(1,2,4,7,8) p s pn nc by auto
qed


text \<open>
  Claim C4. For every requested name and every roster of fewer than 100 names the name
  resolver (a total function, so it returns) gives a name that is not in the roster. A
  requested name that is not in the roster is returned unchanged; one that is in the roster
  is replaced by the first of \<open>name_1\<close>, \<open>name_2\<close>, ... that is free: every
  smaller suffix gives a name of the roster.
\<close>

theorem resolve_name_free:
  assumes "length roster < 100"
  shows "resolve_name roster tok pname \<notin> set roster
    \<and> (pname \<notin> set roster \<longrightarrow> resolve_name roster tok pname = pname)
    \<and> (pname \<in> set roster \<longrightarrow>
         (\<exists>k. 1 \<le> k \<and> k \<le> 99 \<and> resolve_name roster tok pname = suffixed pname k
            \<and> (\<forall>j. 1 \<le> j \<and> j < k \<longrightarrow> suffixed pname j \<in> set roster)))"
proof -
  from resolve_name_least [OF assms] obtain k where k: "k \<le> 99"
    "resolve_name roster tok pname = candidate pname k"
    "candidate pname k \<notin> set roster" "\<forall>j<k. candidate pname j \<in> set roster"
    by blast
  have a: "resolve_name roster tok pname \<notin> set roster" using k by simp
  have b: "resolve_name roster tok pname = pname" if "pname \<notin> set roster"
  proof -
    have "k = 0" using k(4) that by (cases k) (auto simp: candidate_def)
    with k(2) show ?thesis by (simp add: candidate_def)
  qed
  have c: "\<exists>k. 1 \<le> k \<and> k \<le> 99 \<and> resolve_name roster tok pname = suffixed pname k
            \<and> (\<forall>j. 1 \<le> j \<and> j < k \<longrightarrow> suffixed pname j \<in> set roster)" if "pname \<in> set roster"
  proof -
    have "k \<noteq> 0" using k(3) that by (cases "k = 0") (auto simp: candidate_def)
    moreover have "\<forall>j. 1 \<le> j \<and> j < k \<longrightarrow> suffixed pname j \<in> set roster"
      using k(4) by (auto simp: candidate_def)
    moreover have "resolve_name roster tok pname = suffixed pname k"
      using k(2) \<open>k \<noteq> 0\<close> by (simp add: candidate_def)
    ultimately show ?thesis using k(1) by (intro exI [of _ k]) simp
  qed
  from a b c show ?thesis by blast
qed

theorem resolve_name_free_witness:
  "length [''Alice''] < 100
   \<and> resolve_name [''Alice''] ''9f3c'' ''Alice'' = ''Alice_1''
   \<and> ''Alice_1'' \<notin> set [''Alice'']
   \<and> resolve_name [''Alice''] ''9f3c'' ''Bob'' = ''Bob''
   \<and> fst (join_room 1 ''9f3c'' ''ABCD'' ''Alice'' one_room_state) =
       Inr \<lparr>host_ip = JNone, host_port = JInt 5555, joined_public_ip = JNone,
            joined_players = [''Alice'', ''Alice_1''], joined_status = ''in_progress'',
            player_name = ''Alice_1'', name_changed = True\<rparr>"
proof -
  have l: "length [''Alice''] < 100" by simp
  have s1: "suffixed ''Alice'' 1 = ''Alice_1''"
    by (simp add: suffixed_def str_nat.simps digit_char_def)
  from resolve_name_free [OF l, of "''9f3c''" "''Alice''"] obtain k where
    k: "1 \<le> k" "resolve_name [''Alice''] ''9f3c'' ''Alice'' = suffixed ''Alice'' k"
      "\<forall>j. 1 \<le> j \<and> j < k \<longrightarrow> suffixed ''Alice'' j \<in> set [''Alice'']"
    by auto
  have "k = 1"
  proof (rule ccontr)
    assume "k \<noteq> 1"
    with k(1) have "1 < k" by simp
    with k(3) have "suffixed ''Alice'' 1 \<in> set [''Alice'']" by blast
    then show False unfolding s1 by simp
  qed
  with k(2) s1 have r: "resolve_name [''Alice''] ''9f3c'' ''Alice'' = ''Alice_1''" by simp
  from resolve_name_free [OF l, of "''9f3c''" "''Bob''"]
  have b: "resolve_name [''Alice''] ''9f3c'' ''Bob'' = ''Bob''" by simp
  have j: "fst (join_room 1 ''9f3c'' ''ABCD'' ''Alice'' one_room_state) =
       Inr \<lparr>host_ip = JNone, host_port = JInt 5555, joined_public_ip = JNone,
            joined_players = [''Alice'', ''Alice_1''], joined_status = ''in_progress'',
            player_name = ''Alice_1'', name_changed = True\<rparr>"
    by (simp add: one_room_state_eq join_room_def r Let_def)
  from l r b j show ?thesis by simp
qed


text \<open>
  Claim C5. On a registry (a dictionary, so with distinct codes) \<open>cleanup_old_rooms\<close>
  keeps exactly the rooms for which \<open>now - last_activity\<close> is not greater than
  \<open>ROOM_TIMEOUT\<close> seconds, in their order, and returns the number of the others.
  Afterwards \<open>get_room_info\<close> answers \<open>RoomNotFound\<close> for a removed room and gives a
  retained room as it was, and \<open>list_rooms\<close> gives the retained rooms and their number.
\<close>

theorem cleanup_old_rooms_removes_expired:
  assumes "keys_distinct st"
  shows "active_rooms (snd (cleanup_old_rooms now st))
           = filter (\<lambda>(code, room). \<not> now - last_activity room > ROOM_TIMEOUT * 1000000)
               (active_rooms st)
       \<and> fst (cleanup_old_rooms now st)
           = length (filter (\<lambda>(code, room). now - last_activity room > ROOM_TIMEOUT * 1000000)
               (active_rooms st))
       \<and> (\<forall>code room. map_of (active_rooms st) code = Some room \<longrightarrow>
            get_room_info code (snd (cleanup_old_rooms now st))
              = (if now - last_activity room > ROOM_TIMEOUT * 1000000
                 then Inl RoomNotFound else Inr room))
       \<and> list_rooms (snd (cleanup_old_rooms now st))
           = (filter (\<lambda>(code, room). \<not> now - last_activity room > ROOM_TIMEOUT * 1000000)
                (active_rooms st),
              length (active_rooms st) - fst (cleanup_old_rooms now st))"
proof -
  let ?P = "\<lambda>(code, room). expired now room"
  let ?keep = "filter (\<lambda>(code, room). \<not> now - last_activity room > ROOM_TIMEOUT * 1000000)
               (active_rooms st)"
  have d: "distinct (map fst (active_rooms st))" using assms by (simp add: keys_distinct_def)
  have n: "(\<lambda>x. \<not> ?P x) = (\<lambda>(code, room). \<not> now - last_activity room > ROOM_TIMEOUT * 1000000)"
    by (auto simp: expired_def)
  have p: "?P = (\<lambda>(code, room). now - last_activity room > ROOM_TIMEOUT * 1000000)"
    by (auto simp: expired_def)
  have act: "active_rooms (snd (cleanup_old_rooms now st))
      = fold AList.delete (map fst (filter ?P (active_rooms st))) (active_rooms st)"
    by (simp add: cleanup_old_rooms_def Let_def save_rooms_def)
  have 1: "active_rooms (snd (cleanup_old_rooms now st)) = ?keep"
    unfolding act fold_delete_selected [OF d, of ?P] n ..
  have 2: "fst (cleanup_old_rooms now st)
           = length (filter (\<lambda>(code, room). now - last_activity room > ROOM_TIMEOUT * 1000000)
               (active_rooms st))"
    by (simp add: cleanup_old_rooms_def Let_def p)
  have 3: "get_room_info code (snd (cleanup_old_rooms now st))
              = (if now - last_activity room > ROOM_TIMEOUT * 1000000
                 then Inl RoomNotFound else Inr room)"
    if m: "map_of (active_rooms st) code = Some room" for code room
  proof (cases "now - last_activity room > ROOM_TIMEOUT * 1000000")
    case True
    have "code \<notin> fst ` set ?keep"
    proof
      assume "code \<in> fst ` set ?keep"
      then obtain r' where r': "(code, r') \<in> set (active_rooms st)"
        "\<not> now - last_activity r' > ROOM_TIMEOUT * 1000000" by auto
      from m have "(code, room) \<in> set (active_rooms st)" by (rule map_of_SomeD)
      with r' d have "r' = room" by (meson eq_key_imp_eq_value)
      with r' True show False by simp
    qed
    then have "map_of ?keep code = None" by (simp add: map_of_eq_None_iff)
    with True show ?thesis by (simp add: get_room_info_def 1)
  next
    case False
    from m have "(code, room) \<in> set (active_rooms st)" by (rule map_of_SomeD)
    with False have "(code, room) \<in> set ?keep" by simp
    moreover have "distinct (map fst ?keep)" using d by (rule distinct_map_filter)
    ultimately have "map_of ?keep code = Some room" by (rule map_of_is_SomeI [rotated])
    with False show ?thesis by (simp add: get_room_info_def 1)
  qed
  have 4: "list_rooms (snd (cleanup_old_rooms now st))
           = (?keep, length (active_rooms st) - fst (cleanup_old_rooms now st))"
  proof -
    have "length ?keep + length (filter (\<lambda>(code, room). now - last_activity room > ROOM_TIMEOUT * 1000000)
               (active_rooms st)) = length (active_rooms st)"
      using sum_length_filter_compl [of "\<lambda>(code, room). now - last_activity room > ROOM_TIMEOUT * 1000000" "active_rooms st"]
      by (simp add: case_prod_unfold add.commute)
    then show ?thesis by (simp add: list_rooms_def 1 2)
  qed
  from 1 2 3 4 show ?thesis by blast
qed

theorem cleanup_old_rooms_removes_expired_witness:
  "keys_distinct two_room_state
   \<and> fst (cleanup_old_rooms 601000000 two_room_state) = 1
   \<and> active_rooms (snd (cleanup_old_rooms 601000000 two_room_state)) =
       [(''NEW'', \<lparr>host = \<lparr>name = ''Bob'', ip = JNone, port = JInt 5555, public_ip = JNone\<rparr>,
         players = [''Bob''], status = ''waiting'', created_at = 1000000, last_activity = 1000000,
         max_players = 2\<rparr>)]
   \<and> get_room_info ''OLD'' (snd (cleanup_old_rooms 601000000 two_room_state)) = Inl RoomNotFound"
proof -
  have k: "keys_distinct two_room_state"
    by (simp add: keys_distinct_def two_room_state_rooms)
  have m: "map_of (active_rooms two_room_state) ''OLD'' =
     Some \<lparr>host = \<lparr>name = ''Alice'', ip = JNone, port = JInt 5555, public_ip = JNone\<rparr>,
         players = [''Alice''], status = ''waiting'', created_at = 0, last_activity = 0,
         max_players = 2\<rparr>"
    by (simp add: two_room_state_rooms)
  from cleanup_old_rooms_removes_expired [OF k, of 601000000] m k show ?thesis
    by (simp add: two_room_state_rooms ROOM_TIMEOUT_def)
qed


text \<open>
  Claim C6, amended. Along every sequence of create, join, close and reap operations
  during which the room stays registered, the status of the room does not move backward in
  the order \<open>waiting < in_progress < completed\<close>. A status update is excluded: it
  overwrites the status with whatever it is given.
\<close>

theorem status_forward_without_update:
  assumes "\<forall>op\<in>set ops. \<not> is_update op"
    and "\<forall>i\<le>length ops. map_of (active_rooms (run (take i ops) st)) code \<noteq> None"
    and "map_of (active_rooms st) code = Some r"
    and "map_of (active_rooms (run ops st)) code = Some r'"
  shows "status_le (status r) (status r')"
  using assms
proof (induction ops arbitrary: st r)
  case Nil
  then show ?case by (simp add: run_def status_le_refl)
next
  case (Cons op ops)
  from Cons.prems(2) have "map_of (active_rooms (run (take 1 (op # ops)) st)) code \<noteq> None"
    by (metis One_nat_def Suc_leI length_Cons zero_less_Suc)
  then obtain r1 where r1: "map_of (active_rooms (step op st)) code = Some r1"
    by (auto simp: run_def)
  have first: "status_le (status r) (status r1)"
    using Cons.prems(1,3) r1 by (intro step_status_forward [of op st code]) auto
  have later: "status_le (status r1) (status r')"
  proof (rule Cons.IH [of "step op st"])
    show "\<forall>op\<in>set ops. \<not> is_update op" using Cons.prems(1) by simp
    show "\<forall>i\<le>length ops. map_of (active_rooms (run (take i ops) (step op st))) code \<noteq> None"
    proof (intro allI impI)
      fix i assume "i \<le> length ops"
      then have "Suc i \<le> length (op # ops)" by simp
      with Cons.prems(2) have "map_of (active_rooms (run (take (Suc i) (op # ops)) st)) code \<noteq> None"
        by blast
      then show "map_of (active_rooms (run (take i ops) (step op st))) code \<noteq> None"
        by (simp add: run_def)
    qed
    show "map_of (active_rooms (step op st)) code = Some r1" by (rule r1)
    show "map_of (active_rooms (run ops (step op st))) code = Some r'"
      using Cons.prems(4) by (simp add: run_def)
  qed
  from first later show ?case by (rule status_le_trans)
qed

theorem status_forward_without_update_witness:
  "\<not> is_update (Join 1 ''0000'' ''ABCD'' ''Bob'')
   \<and> \<not> is_update (Close ''ZZZZ'')
   \<and> map_of (active_rooms (run [] one_room_state)) ''ABCD'' \<noteq> None
   \<and> map_of (active_rooms (run [Join 1 ''0000'' ''ABCD'' ''Bob''] one_room_state)) ''ABCD'' \<noteq> None
   \<and> map_of (active_rooms (run [Join 1 ''0000'' ''ABCD'' ''Bob'', Close ''ZZZZ''] one_room_state))
        ''ABCD'' \<noteq> None
   \<and> map_option status (map_of (active_rooms one_room_state) ''ABCD'') = Some ''waiting''
   \<and> map_option status
        (map_of (active_rooms (run [Join 1 ''0000'' ''ABCD'' ''Bob'', Close ''ZZZZ''] one_room_state)) ''ABCD'')
       = Some ''in_progress''
   \<and> status_le ''waiting'' ''in_progress''"
proof -
  let ?ops = "[Join 1 ''0000'' ''ABCD'' ''Bob'', Close ''ZZZZ'']"
  let ?r = "\<lparr>host = \<lparr>name = ''Alice'', ip = JNone, port = JInt 5555, public_ip = JNone\<rparr>,
         players = [''Alice''], status = ''waiting'', created_at = 0, last_activity = 0,
         max_players = 2\<rparr>"
  let ?r' = "\<lparr>host = \<lparr>name = ''Alice'', ip = JNone, port = JInt 5555, public_ip = JNone\<rparr>,
         players = [''Alice'', ''Bob''], status = ''in_progress'', created_at = 0, last_activity = 1,
         max_players = 2\<rparr>"
  have j: "snd (join_room 1 ''0000'' ''ABCD'' ''Bob'' one_room_state) = full_room_state"
    by (simp add: one_room_state_eq full_room_state_eq join_room_def save_rooms_def
        resolve_name_def resolve_loop.simps Let_def)
  have c: "snd (close_room ''ZZZZ'' full_room_state) = full_room_state"
    by (simp add: full_room_state_eq close_room_def)
  have p0: "map_of (active_rooms (run [] one_room_state)) ''ABCD'' \<noteq> None"
    by (simp add: run_def one_room_state_eq)
  have p1: "map_of (active_rooms (run [Join 1 ''0000'' ''ABCD'' ''Bob''] one_room_state)) ''ABCD'' \<noteq> None"
    by (simp add: run_def j) (simp add: full_room_state_eq)
  have p2: "map_of (active_rooms (run ?ops one_room_state)) ''ABCD'' \<noteq> None"
    by (simp add: run_def j c) (simp add: full_room_state_eq)
  have a: "\<forall>op\<in>set ?ops. \<not> is_update op" by simp
  have b: "\<forall>i\<le>length ?ops. map_of (active_rooms (run (take i ?ops) one_room_state)) ''ABCD'' \<noteq> None"
  proof (intro allI impI)
    fix i assume "i \<le> length ?ops"
    then consider "i = 0" | "i = 1" | "i = 2" by fastforce
    then show "map_of (active_rooms (run (take i ?ops) one_room_state)) ''ABCD'' \<noteq> None"
    proof cases
      case 1 with p0 show ?thesis by simp
    next
      case 2 with p1 show ?thesis by simp
    next
      case 3 with p2 show ?thesis by simp
    qed
  qed
  have s: "map_of (active_rooms one_room_state) ''ABCD'' = Some ?r"
    by (simp add: one_room_state_eq)
  have e: "map_of (active_rooms (run ?ops one_room_state)) ''ABCD'' = Some ?r'"
    by (simp add: run_def j c) (simp add: full_room_state_eq)
  have le: "status_le ''waiting'' ''in_progress''"
    using status_forward_without_update [OF a b s e] by simp
  have u: "\<not> is_update (Join 1 ''0000'' ''ABCD'' ''Bob'') \<and> \<not> is_update (Close ''ZZZZ'')"
    by simp
  from u p0 p1 p2 s e le show ?thesis by simp
qed


text \<open>
  Claim C6 as stated fails: on the room \<open>ABCD\<close> with status \<open>in_progress\<close> the
  update to \<open>waiting\<close> is accepted and moves the status backward.
\<close>

theorem status_reverts_counterexample:
  "map_option status (map_of (active_rooms full_room_state) ''ABCD'') = Some ''in_progress''
   \<and> map_option status
        (map_of (active_rooms (snd (update_room_status 2 ''ABCD'' ''waiting'' full_room_state))) ''ABCD'')
       = Some ''waiting''
   \<and> \<not> status_le ''in_progress'' ''waiting''"
  by (simp add: full_room_state_eq update_room_status_def save_rooms_def status_le_def)


text \<open>
  Claim C7, amended. \<open>update_room_status\<close> installs the status string it is given, with
  no test. Every room of a registry reached from the empty one by operations whose status
  updates carry one of \<open>waiting\<close>, \<open>in_progress\<close>, \<open>completed\<close> has one of these
  three strings as its status.
\<close>

theorem status_recognized_if_updates_recognized:
  "((\<forall>op\<in>set ops. recognized_update op) \<longrightarrow>
      (\<forall>(code, room)\<in>set (active_rooms (run ops empty_state)). recognized (status room)))
   \<and> (map_of (active_rooms st) room_code \<noteq> None \<longrightarrow>
        map_option status
          (map_of (active_rooms (snd (update_room_status now room_code new_status st))) room_code)
        = Some new_status)"
proof (intro conjI impI)
  assume "\<forall>op\<in>set ops. recognized_update op"
  moreover have "all_recognized empty_state" by (simp add: all_recognized_def empty_state_def)
  ultimately have "all_recognized (run ops empty_state)" by (intro all_recognized_run)
  then show "\<forall>(code, room)\<in>set (active_rooms (run ops empty_state)). recognized (status room)"
    by (simp add: all_recognized_iff)
next
  assume "map_of (active_rooms st) room_code \<noteq> None"
  then show "map_option status
          (map_of (active_rooms (snd (update_room_status now room_code new_status st))) room_code)
        = Some new_status"
    by (auto simp: update_room_status_def save_rooms_def update_conv')
qed

theorem status_recognized_if_updates_recognized_witness:
  "recognized_update (Create 0 0 ''ABCD'' ''Alice'' [])
   \<and> recognized_update (UpdateStatus 1 ''ABCD'' ''completed'')
   \<and> all_recognized
        (run [Create 0 0 ''ABCD'' ''Alice'' [], UpdateStatus 1 ''ABCD'' ''completed''] empty_state)
   \<and> map_of (active_rooms one_room_state) ''ABCD'' \<noteq> None
   \<and> map_option status
        (map_of (active_rooms (snd (update_room_status 1 ''ABCD'' ''completed'' one_room_state))) ''ABCD'')
       = Some ''completed''"
proof -
  let ?ops = "[Create 0 0 ''ABCD'' ''Alice'' [], UpdateStatus 1 ''ABCD'' ''completed'']"
  have u: "recognized_update (Create 0 0 ''ABCD'' ''Alice'' [])
      \<and> recognized_update (UpdateStatus 1 ''ABCD'' ''completed'')"
    by (simp add: recognized_def)
  then have a: "\<forall>op\<in>set ?ops. recognized_update op" by simp
  have b: "map_of (active_rooms one_room_state) ''ABCD'' \<noteq> None"
    by (simp add: one_room_state_eq)
  from status_recognized_if_updates_recognized
    [of ?ops one_room_state "''ABCD''" 1 "''completed''"] a b
  have "(\<forall>(code, room)\<in>set (active_rooms (run ?ops empty_state)). recognized (status room))"
    and m: "map_option status
        (map_of (active_rooms (snd (update_room_status 1 ''ABCD'' ''completed'' one_room_state))) ''ABCD'')
       = Some ''completed''"
    by blast+
  then have "all_recognized (run ?ops empty_state)" by (simp only: all_recognized_iff)
  with u b m show ?thesis by simp
qed


text \<open>
  Claim C7 as stated fails: the update of room \<open>ABCD\<close> to the status \<open>paused\<close>
  succeeds and the stored status is \<open>paused\<close>, which is none of the three strings.
\<close>

theorem status_unrecognized_counterexample:
  "map_option status (map_of (active_rooms one_room_state) ''ABCD'') = Some ''waiting''
   \<and> fst (update_room_status 1 ''ABCD'' ''paused'' one_room_state) = Inr ()
   \<and> map_option status
        (map_of (active_rooms (snd (update_room_status 1 ''ABCD'' ''paused'' one_room_state))) ''ABCD'')
       = Some ''paused''
   \<and> \<not> recognized ''paused''"
  by (simp add: one_room_state_eq update_room_status_def save_rooms_def recognized_def)


text \<open>
  Claim C8. An operation that succeeds (a create, join, update or close that returns
  success, a reaping run that removes a room) appends exactly one dump to the rooms file,
  and the dump is the registry as the operation leaves it. An operation that fails, and a
  reaping run that removes nothing, returns the state as it was: nothing is written.
\<close>

theorem one_snapshot_per_mutation:
  "(succeeds op st \<longrightarrow> rooms_file (step op st) = rooms_file st @ [active_rooms (step op st)])
   \<and> (\<not> succeeds op st \<longrightarrow> step op st = st)"
proof (cases op)
  case (Create t1 t2 c p h)
  then show ?thesis by (simp add: create_room_def save_rooms_def)
next
  case (Join t tok c p)
  then show ?thesis
    by (simp add: join_room_def save_rooms_def Let_def split: option.split)
next
  case (UpdateStatus t c s)
  then show ?thesis by (simp add: update_room_status_def save_rooms_def split: option.split)
next
  case (Close c)
  then show ?thesis by (simp add: close_room_def save_rooms_def)
next
  case (Reap t)
  then show ?thesis by (simp add: cleanup_old_rooms_def save_rooms_def Let_def)
qed

theorem one_snapshot_per_mutation_witness:
  "succeeds (Join 1 ''0000'' ''ABCD'' ''Bob'') one_room_state
   \<and> rooms_file (step (Join 1 ''0000'' ''ABCD'' ''Bob'') one_room_state)
       = rooms_file one_room_state @ [active_rooms full_room_state]
   \<and> \<not> succeeds (Join 2 ''0000'' ''ABCD'' ''Carol'') full_room_state
   \<and> step (Join 2 ''0000'' ''ABCD'' ''Carol'') full_room_state = full_room_state"
proof -
  have j: "join_room 1 ''0000'' ''ABCD'' ''Bob'' one_room_state =
     (Inr \<lparr>host_ip = JNone, host_port = JInt 5555, joined_public_ip = JNone,
           joined_players = [''Alice'', ''Bob''], joined_status = ''in_progress'',
           player_name = ''Bob'', name_changed = False\<rparr>, full_room_state)"
    by (simp add: one_room_state_eq full_room_state_eq join_room_def save_rooms_def
        resolve_name_def resolve_loop.simps Let_def)
  have a: "succeeds (Join 1 ''0000'' ''ABCD'' ''Bob'') one_room_state" by (simp add: j)
  have s: "step (Join 1 ''0000'' ''ABCD'' ''Bob'') one_room_state = full_room_state"
    by (simp add: j)
  have b: "\<not> succeeds (Join 2 ''0000'' ''ABCD'' ''Carol'') full_room_state"
    by (simp add: full_room_state_eq join_room_def)
  from one_snapshot_per_mutation [of "Join 1 ''0000'' ''ABCD'' ''Bob''" one_room_state]
    one_snapshot_per_mutation [of "Join 2 ''0000'' ''ABCD'' ''Carol''" full_room_state]
    a b s show ?thesis by simp
qed


text \<open>
  Claim C9. When the registry holds \<open>MAX_ROOMS\<close> rooms or more and the requested code is
  registered as well, \<open>create_room\<close> returns \<open>CapacityExceeded\<close>, not
  \<open>CodeConflict\<close>: the capacity test comes first.
\<close>

theorem create_room_capacity_first:
  assumes "length (active_rooms st) \<ge> MAX_ROOMS" and "map_of (active_rooms st) room_code \<noteq> None"
  shows "create_room t_created t_activity room_code pname host_info st = (Inl CapacityExceeded, st)"
  using assms by (simp add: create_room_def)

theorem create_room_capacity_first_witness:
  "length (active_rooms \<lparr>active_rooms = numbered_rooms 1000, rooms_file = []\<rparr>) \<ge> MAX_ROOMS
   \<and> map_of (active_rooms \<lparr>active_rooms = numbered_rooms 1000, rooms_file = []\<rparr>) (str_nat 7) \<noteq> None
   \<and> create_room 5 5 (str_nat 7) ''Alice'' Map.empty \<lparr>active_rooms = numbered_rooms 1000, rooms_file = []\<rparr>
       = (Inl CapacityExceeded, \<lparr>active_rooms = numbered_rooms 1000, rooms_file = []\<rparr>)"
proof -
  have a: "length (active_rooms \<lparr>active_rooms = numbered_rooms 1000, rooms_file = []\<rparr>) \<ge> MAX_ROOMS"
    by (simp add: length_numbered MAX_ROOMS_def)
  have b: "map_of (active_rooms \<lparr>active_rooms = numbered_rooms 1000, rooms_file = []\<rparr>) (str_nat 7) \<noteq> None"
    by (simp add: map_of_numbered)
  from create_room_capacity_first [OF a b] a b show ?thesis by blast
qed


text \<open>
  Claim C10. After a successful \<open>create_room\<close> the port stored for the host is 5555
  when the host description has no \<open>port\<close> entry, and the value of that entry otherwise.
\<close>

theorem create_room_port:
  assumes "fst (create_room t_created t_activity room_code pname host_info st) = Inr c"
  shows "\<exists>r. get_room_info room_code (snd (create_room t_created t_activity room_code pname host_info st)) = Inr r
           \<and> (host_info ''port'' = None \<longrightarrow> port (host r) = JInt 5555)
           \<and> (\<forall>v. host_info ''port'' = Some v \<longrightarrow> port (host r) = v)"
  using assms
  by (auto simp: create_room_def get_room_info_def save_rooms_def new_room_def dict_get_def
      update_conv' split: if_splits)

theorem create_room_port_witness:
  "fst (create_room 0 0 ''ABCD'' ''Alice'' (map_of [(''ip'', JStr ''10.0.0.1'')]) empty_state) = Inr ''ABCD''
   \<and> map_of [(''ip'', JStr ''10.0.0.1'')] ''port'' = None
   \<and> (\<exists>r. get_room_info ''ABCD''
            (snd (create_room 0 0 ''ABCD'' ''Alice'' (map_of [(''ip'', JStr ''10.0.0.1'')]) empty_state)) = Inr r
          \<and> port (host r) = JInt 5555)"
proof -
  have h: "fst (create_room 0 0 ''ABCD'' ''Alice'' (map_of [(''ip'', JStr ''10.0.0.1'')]) empty_state) = Inr ''ABCD''"
    by (simp add: create_room_def empty_state_def MAX_ROOMS_def)
  have n: "map_of [(''ip'', JStr ''10.0.0.1'')] ''port'' = None" by simp
  from create_room_port [OF h] n h show ?thesis by blast
qed


end
